theory Spec2Isabelle
  imports Complex_Main "HOL-Library.Multiset" "HOL-Library.Char_ord" "HOL-Library.List_Lexorder"
begin

section \<open>The program\<close>

subsection \<open>Errors\<close>

text \<open>
  The exceptions that can leave the functions below, as values. \<open>ConnectionError\<close> stands for
  whatever \<open>requests.get\<close> raises when no response arrives, \<open>DatabaseError\<close> for an error
  of the MySQL driver, \<open>SendError\<close> for a failure of the mail backend.
\<close>

datatype error =
    ConnectionError
  | JSONDecodeError
  | KeyError string
  | TypeError
  | ValueError
  | OverflowError
  | UnknownTimeZoneError
  | DatabaseError
  | SendError

subsection \<open>Data\<close>

text \<open>
  A decoded JSON document; a number is finite, and an object is the list of its items,
  keys distinct.
\<close>

datatype json =
    JNull
  | JBool bool
  | JNum rat
  | JStr string
  | JArr "json list"
  | JObj "(string \<times> json) list"

text \<open>
  What the program reads of an HTTP response: the status code (which it never reads) and
  the decoded body, \<open>None\<close> when the body is not JSON.
\<close>

record response =
  status_code :: nat
  json_body :: "json option"

text \<open>
  A row of the table \<open>price\<close> of \<open>create_table\<close> (lines 23 to 26). A \<open>DATETIME\<close> value is
  kept as its text \<open>YYYY-MM-DD HH:MM:SS\<close>: equal values have equal texts and the order of
  the values is the order of the texts.
\<close>

record price_row =
  from_period :: string
  to_period :: string
  price :: rat

text \<open>
  The server as the connection sees it: the database \<open>octopus\<close> may be missing, or its
  table may be, or the table holds rows. \<open>from_period\<close> is the primary key, so the rows of
  a table have distinct \<open>from_period\<close>.
\<close>

datatype mysql = NoDatabase | NoTable | Table "price_row list"

text \<open>A civil date and time, the fields of a Python \<open>datetime\<close> without microseconds.\<close>

record datetime =
  year :: int
  month :: int
  day :: int
  hh :: int
  mi :: int
  ss :: int

text \<open>
  What the program takes from outside its own files, as parameters:
  \<^item> \<open>requests_get url auth\<close>: the response to the GET request, or the error raised when
    there is none;
  \<^item> \<open>timezone name\<close>: the zone \<open>pytz.timezone(name)\<close> returns, as the offset from UTC
    in seconds that it assigns to each UTC second; \<open>None\<close> when the name is unknown;
  \<^item> \<open>other_isoformat text\<close>: what \<open>datetime.fromisoformat\<close> followed by \<open>astimezone\<close>
    makes of a text that is not of the form \<open>YYYY-MM-DD\<close>, one character,
    \<open>HH:MM:SS+00:00\<close>: the error raised or the UTC second denoted;
  \<^item> \<open>float_column x\<close>: the value a \<open>FLOAT\<close> column stores for the number \<open>x\<close>;
  \<^item> \<open>other_price j\<close>: what the server makes of a price that is not a JSON number,
    spliced into the statement as Python prints it: the error or the value stored;
  \<^item> \<open>utcnow k\<close>: the clock at the \<open>k\<close>-th call of \<open>datetime.utcnow()\<close> of the run, in
    seconds since 1970-01-01T00:00:00 UTC;
  \<^item> \<open>gmail_send recipients subject body\<close>: the error of the mail backend, if any.
\<close>

record externals =
  requests_get :: "string \<Rightarrow> string \<times> string \<Rightarrow> error + response"
  timezone :: "string \<Rightarrow> (int \<Rightarrow> int) option"
  other_isoformat :: "string \<Rightarrow> error + int"
  float_column :: "rat \<Rightarrow> rat"
  other_price :: "json \<Rightarrow> error + rat"
  utcnow :: "nat \<Rightarrow> int"
  gmail_send :: "string \<Rightarrow> string \<Rightarrow> string \<Rightarrow> error option"

subsection \<open>The calendar of Python's \<open>datetime\<close>\<close>

text \<open>
  The proleptic Gregorian calendar with day 1 = 0001-01-01, as \<open>datetime\<close> counts it;
  1970-01-01 is day 719163.
\<close>

definition is_leap :: "int \<Rightarrow> bool" where
  "is_leap y = (y mod 4 = 0 \<and> (y mod 100 \<noteq> 0 \<or> y mod 400 = 0))"

definition days_before_year :: "int \<Rightarrow> int" where
  "days_before_year y = (y - 1) * 365 + (y - 1) div 4 - (y - 1) div 100 + (y - 1) div 400"

definition days_in_month :: "int \<Rightarrow> int \<Rightarrow> int" where
  "days_in_month y m =
     (if m = 2 \<and> is_leap y then 29
      else [31, 28, 31, 30, 31, 30, 31, 31, 30, 31, 30, 31] ! nat (m - 1))"

definition days_before_month :: "int \<Rightarrow> int \<Rightarrow> int" where
  "days_before_month y m =
     [0, 31, 59, 90, 120, 151, 181, 212, 243, 273, 304, 334] ! nat (m - 1)
     + (if m > 2 \<and> is_leap y then 1 else 0)"

definition ymd2ord :: "int \<Rightarrow> int \<Rightarrow> int \<Rightarrow> int" where
  "ymd2ord y m d = days_before_year y + days_before_month y m + d"

definition ord2ymd :: "int \<Rightarrow> int \<times> int \<times> int" where
  "ord2ymd ordinal =
     (let n = ordinal - 1;
          n400 = n div 146097; n = n mod 146097;
          n100 = n div 36524; n = n mod 36524;
          n4 = n div 1461; n = n mod 1461;
          n1 = n div 365; n = n mod 365;
          y = n400 * 400 + 1 + n100 * 100 + n4 * 4 + n1
      in if n1 = 4 \<or> n100 = 4 then (y - 1, 12, 31)
         else
           let m = (n + 50) div 32;
               preceding = days_before_month y m
           in if preceding > n
              then (y, m - 1, n - (preceding - days_in_month y (m - 1)) + 1)
              else (y, m, n - preceding + 1))"

text \<open>A UTC date and time as seconds since 1970-01-01T00:00:00, and back.\<close>

definition utc_seconds :: "datetime \<Rightarrow> int" where
  "utc_seconds d =
     (ymd2ord (year d) (month d) (day d) - 719163) * 86400 + hh d * 3600 + mi d * 60 + ss d"

definition civil :: "int \<Rightarrow> datetime" where
  "civil u =
     (let (y, m, d) = ord2ymd (u div 86400 + 719163); r = u mod 86400
      in \<lparr>year = y, month = m, day = d,
          hh = r div 3600, mi = r mod 3600 div 60, ss = r mod 60\<rparr>)"

text \<open>The seconds of 0001-01-01 00:00:00 to 9999-12-31 23:59:59, all a \<open>datetime\<close> can hold.\<close>

definition in_range :: "int \<Rightarrow> bool" where
  "in_range u = (- 62135596800 \<le> u \<and> u \<le> 253402300799)"

subsection \<open>Printing and reading dates\<close>

definition digit_char :: "int \<Rightarrow> char" where
  "digit_char n = ''0123456789'' ! nat n"

definition digits2 :: "int \<Rightarrow> string" where
  "digits2 n = [digit_char (n div 10 mod 10), digit_char (n mod 10)]"

definition digits4 :: "int \<Rightarrow> string" where
  "digits4 n = digits2 (n div 100) @ digits2 n"

text \<open>
  \<open>strftime\<close> with the formats \<open>%Y-%m-%d %H:%M:%S\<close> (line 57, \<open>sep\<close> a blank) and
  \<open>%Y-%m-%dT%H:%M:%S%z\<close> (lines 86 and 89, \<open>sep\<close> the letter T; \<open>%z\<close> prints nothing for
  the value of \<open>utcnow()\<close>, which carries no zone). The year is printed with four digits;
  the C library of some platforms prints a year below 1000 without the leading zeros.
\<close>

definition strftime :: "char \<Rightarrow> datetime \<Rightarrow> string" where
  "strftime sep d =
     digits4 (year d) @ ''-'' @ digits2 (month d) @ ''-'' @ digits2 (day d) @ [sep]
     @ digits2 (hh d) @ '':'' @ digits2 (mi d) @ '':'' @ digits2 (ss d)"

definition is_digit :: "char \<Rightarrow> bool" where
  "is_digit c = (c \<in> set ''0123456789'')"

definition digit_value :: "char \<Rightarrow> int" where
  "digit_value c = int (length (takeWhile (\<lambda>d. d \<noteq> c) ''0123456789''))"

definition number :: "string \<Rightarrow> int" where
  "number ds = foldl (\<lambda>n c. 10 * n + digit_value c) 0 ds"

text \<open>
  The texts \<open>YYYY-MM-DD\<close>, one character, \<open>HH:MM:SS+00:00\<close>, which Python 3.10's
  \<open>datetime.fromisoformat\<close> reads as a date and time in UTC.
\<close>

definition iso_shape :: "string \<Rightarrow> bool" where
  "iso_shape s =
     (length s = 25
      \<and> list_all is_digit (take 4 s) \<and> s ! 4 = CHR ''-''
      \<and> list_all is_digit (take 2 (drop 5 s)) \<and> s ! 7 = CHR ''-''
      \<and> list_all is_digit (take 2 (drop 8 s))
      \<and> list_all is_digit (take 2 (drop 11 s)) \<and> s ! 13 = CHR '':''
      \<and> list_all is_digit (take 2 (drop 14 s)) \<and> s ! 16 = CHR '':''
      \<and> list_all is_digit (take 2 (drop 17 s))
      \<and> drop 19 s = ''+00:00'')"

text \<open>
  \<open>datetime.fromisoformat\<close> (line 55), the value kept as its UTC second. A text of the
  form above is read field by field and refused with \<open>ValueError\<close> when a field is out of
  its range; any other text is left to \<open>other_isoformat\<close>.
\<close>

definition fromisoformat :: "externals \<Rightarrow> string \<Rightarrow> error + int" where
  "fromisoformat ext s =
     (if iso_shape s then
        let d = \<lparr>year = number (take 4 s), month = number (take 2 (drop 5 s)),
                 day = number (take 2 (drop 8 s)), hh = number (take 2 (drop 11 s)),
                 mi = number (take 2 (drop 14 s)), ss = number (take 2 (drop 17 s))\<rparr>
        in if 1 \<le> year d \<and> 1 \<le> month d \<and> month d \<le> 12
              \<and> 1 \<le> day d \<and> day d \<le> days_in_month (year d) (month d)
              \<and> hh d \<le> 23 \<and> mi d \<le> 59 \<and> ss d \<le> 59
           then Inr (utc_seconds d)
           else Inl ValueError
      else other_isoformat ext s)"

subsection \<open>\<open>to_timezone\<close> (lines 47 to 57)\<close>

text \<open>
  Line 55 drops the last character of \<open>t\<close> (whatever it is; nothing when \<open>t\<close> is empty),
  appends \<open>+00:00\<close> and parses. Line 56 looks the zone up and moves the UTC value to it:
  the zone's offset at that instant is added, which raises \<open>OverflowError\<close> when the
  result leaves the years 1 to 9999. Line 57 prints the civil time.
\<close>

definition to_timezone :: "externals \<Rightarrow> string \<Rightarrow> string \<Rightarrow> error + string" where
  "to_timezone ext t tz =
     (case fromisoformat ext (butlast t @ ''+00:00'') of
        Inl e \<Rightarrow> Inl e
      | Inr utc \<Rightarrow>
          (case timezone ext tz of
             None \<Rightarrow> Inl UnknownTimeZoneError
           | Some offset \<Rightarrow>
               if in_range (utc + offset utc)
               then Inr (strftime CHR '' '' (civil (utc + offset utc)))
               else Inl OverflowError))"

subsection \<open>\<open>create_table\<close> (lines 15 to 27)\<close>

text \<open>
  \<open>CREATE DATABASE IF NOT EXISTS\<close> and \<open>CREATE TABLE IF NOT EXISTS\<close>: a missing database
  or table is created, empty; an existing table is left as it is.
\<close>

definition create_table :: "mysql \<Rightarrow> mysql" where
  "create_table con = (case con of Table rows \<Rightarrow> Table rows | _ \<Rightarrow> Table [])"

subsection \<open>\<open>get_price\<close> (lines 30 to 44)\<close>

definition price_url :: "string \<Rightarrow> string" where
  "price_url product_code =
     ''https://api.octopus.energy/v1/products/'' @ product_code @ ''/electricity-tariffs/''
     @ ''E-1R-'' @ product_code @ ''-C/standard-unit-rates/''"

text \<open>
  Line 43 sends the request; an error of \<open>requests.get\<close> leaves the function. Line 44
  decodes the body of whatever response came, with no look at its status code.
\<close>

definition get_price :: "externals \<Rightarrow> string \<Rightarrow> string \<Rightarrow> error + json" where
  "get_price ext api_key product_code =
     (case requests_get ext (price_url product_code) (api_key, '''') of
        Inl e \<Rightarrow> Inl e
      | Inr resp \<Rightarrow>
          (case json_body resp of
             None \<Rightarrow> Inl JSONDecodeError
           | Some j \<Rightarrow> Inr j))"

subsection \<open>\<open>insert_price\<close> (lines 60 to 74)\<close>

text \<open>
  Python's \<open>v[key]\<close> with a string key: the item of a dict, \<open>KeyError\<close> when it has none;
  \<open>TypeError\<close> on any other value.
\<close>

definition subscript :: "json \<Rightarrow> string \<Rightarrow> error + json" where
  "subscript v k =
     (case v of
        JObj items \<Rightarrow> (case map_of items k of None \<Rightarrow> Inl (KeyError k) | Some x \<Rightarrow> Inr x)
      | _ \<Rightarrow> Inl TypeError)"

text \<open>
  What \<open>for p in v\<close> runs over: the elements of a list, the keys of a dict, the characters
  of a string; \<open>TypeError\<close> on a number, a boolean or null.
\<close>

definition iterate :: "json \<Rightarrow> error + json list" where
  "iterate v =
     (case v of
        JArr xs \<Rightarrow> Inr xs
      | JObj items \<Rightarrow> Inr (map (\<lambda>kv. JStr (fst kv)) items)
      | JStr s \<Rightarrow> Inr (map (\<lambda>c. JStr [c]) s)
      | _ \<Rightarrow> Inl TypeError)"

text \<open>
  \<open>to_timezone\<close> applied to a decoded value: \<open>t[:-1] + '+00:00'\<close> raises \<open>TypeError\<close> on
  anything but a string.
\<close>

definition to_timezone_json :: "externals \<Rightarrow> json \<Rightarrow> error + string" where
  "to_timezone_json ext v =
     (case v of JStr t \<Rightarrow> to_timezone ext t ''Europe/London'' | _ \<Rightarrow> Inl TypeError)"

text \<open>Lines 70 to 72 and the values of the statement of line 73, for one record \<open>p\<close>.\<close>

definition price_row_of :: "externals \<Rightarrow> json \<Rightarrow> error + price_row" where
  "price_row_of ext p =
     (case subscript p ''valid_from'' of Inl e \<Rightarrow> Inl e | Inr vf \<Rightarrow>
      case to_timezone_json ext vf of Inl e \<Rightarrow> Inl e | Inr from_p \<Rightarrow>
      case subscript p ''valid_to'' of Inl e \<Rightarrow> Inl e | Inr vt \<Rightarrow>
      case to_timezone_json ext vt of Inl e \<Rightarrow> Inl e | Inr to_p \<Rightarrow>
      case subscript p ''value_inc_vat'' of Inl e \<Rightarrow> Inl e | Inr v \<Rightarrow>
      case (case v of JNum x \<Rightarrow> Inr (float_column ext x) | _ \<Rightarrow> other_price ext v) of
        Inl e \<Rightarrow> Inl e
      | Inr x \<Rightarrow> Inr \<lparr>from_period = from_p, to_period = to_p, price = x\<rparr>)"

text \<open>
  \<open>INSERT IGNORE\<close> of one row: a row whose primary key is already in the table is skipped
  without an error, any other row is added.
\<close>

definition insert_ignore :: "price_row list \<Rightarrow> price_row \<Rightarrow> price_row list" where
  "insert_ignore rows r =
     (if from_period r \<in> set (map from_period rows) then rows else rows @ [r])"

definition execute_insert :: "mysql \<Rightarrow> price_row \<Rightarrow> error + mysql" where
  "execute_insert con r =
     (case con of
        Table rows \<Rightarrow> Inr (Table (insert_ignore rows r))
      | _ \<Rightarrow> Inl DatabaseError)"

text \<open>The loop of lines 69 to 73 over the records, the connection's view threaded through.\<close>

fun insert_loop :: "externals \<Rightarrow> mysql \<Rightarrow> json list \<Rightarrow> error + mysql" where
  "insert_loop ext con [] = Inr con"
| "insert_loop ext con (p # ps) =
     (case price_row_of ext p of Inl e \<Rightarrow> Inl e | Inr r \<Rightarrow>
      case execute_insert con r of Inl e \<Rightarrow> Inl e | Inr con' \<Rightarrow>
      insert_loop ext con' ps)"

text \<open>
  \<open>USE octopus\<close> fails without the database. The inserts are committed by line 74 only:
  the result is the committed state, and an exception before line 74 commits nothing
  (the caller keeps the state it had; the table's engine is transactional).
\<close>

definition insert_price :: "externals \<Rightarrow> mysql \<Rightarrow> json \<Rightarrow> error + mysql" where
  "insert_price ext con prices =
     (if con = NoDatabase then Inl DatabaseError
      else
        case subscript prices ''results'' of Inl e \<Rightarrow> Inl e | Inr results \<Rightarrow>
        case iterate results of Inl e \<Rightarrow> Inl e | Inr ps \<Rightarrow>
        insert_loop ext con ps)"

subsection \<open>Concatenating continuous hours (octopus.py, lines 100 to 113)\<close>

text \<open>
  The body of the loop of lines 105 to 109. \<open>continuous_hours[-1]\<close> is the last interval
  built so far; when the next period starts where it ends, its second component is
  overwritten in place, otherwise the period is appended. The list is never empty when the
  step runs: it starts as \<open>[list(hours[0])]\<close> and no step shortens it
  (lemma \<open>concat_loop_not_empty\<close> below), so \<open>continuous_hours[-1]\<close> never raises.
\<close>

definition concat_step :: "('a \<times> 'a) list \<Rightarrow> 'a \<times> 'a \<Rightarrow> ('a \<times> 'a) list" where
  "concat_step continuous_hours hour =
     (if fst hour = snd (last continuous_hours)
      then continuous_hours[length continuous_hours - 1 :=
             (fst (last continuous_hours), snd hour)]
      else continuous_hours @ [hour])"

text \<open>
  Lines 100 to 109: the early return on no rows, then the loop over \<open>hours[1:]\<close> from
  the one-element list holding the first row.
\<close>

definition concat_hours :: "('a \<times> 'a) list \<Rightarrow> ('a \<times> 'a) list" where
  "concat_hours hours =
     (case hours of
        [] \<Rightarrow> []
      | first # rest \<Rightarrow> foldl concat_step [first] rest)"

text \<open>
  Line 112. A \<open>DATETIME\<close> value is modelled by its text \<open>YYYY-MM-DD HH:MM:SS\<close>, which is
  what \<open>str\<close> prints for the \<open>datetime\<close> object the driver returns; \<open>[0:-3]\<close> drops the
  last three characters (and gives the empty string when there are fewer than three).
\<close>

definition drop_seconds :: "string \<Rightarrow> string" where
  "drop_seconds s = take (length s - 3) s"

definition continuous_hours_str :: "(string \<times> string) list \<Rightarrow> (string \<times> string) list" where
  "continuous_hours_str hours =
     map (\<lambda>h. (drop_seconds (fst h), drop_seconds (snd h))) (concat_hours hours)"

subsection \<open>The interval merger as the specification words it\<close>

text \<open>
  The specification's algorithm, kept apart from the code's: one scan that carries the
  intervals already finished and the current interval. A pair whose \<open>from\<close> equals the
  current interval's \<open>to\<close> extends the current interval; any other pair closes it and
  opens a new one. At the end of the input the current interval is finished.
\<close>

fun merge_scan :: "('a \<times> 'a) list \<Rightarrow> 'a \<times> 'a \<Rightarrow> ('a \<times> 'a) list \<Rightarrow> ('a \<times> 'a) list" where
  "merge_scan finished current [] = finished @ [current]"
| "merge_scan finished current (p # ps) =
     (if fst p = snd current
      then merge_scan finished (fst current, snd p) ps
      else merge_scan (finished @ [current]) p ps)"

definition merge_spec :: "('a \<times> 'a) list \<Rightarrow> ('a \<times> 'a) list" where
  "merge_spec pairs = (case pairs of [] \<Rightarrow> [] | p # ps \<Rightarrow> merge_scan [] p ps)"

text \<open>
  Two shapes of a sequence of periods: each period ends where the next one starts
  (pairwise contiguous), and no period ends where the next one starts.
\<close>

fun contiguous :: "('a \<times> 'a) list \<Rightarrow> bool" where
  "contiguous [] = True"
| "contiguous [p] = True"
| "contiguous (p # q # ps) = (snd p = fst q \<and> contiguous (q # ps))"

fun non_contiguous :: "('a \<times> 'a) list \<Rightarrow> bool" where
  "non_contiguous [] = True"
| "non_contiguous [p] = True"
| "non_contiguous (p # q # ps) = (snd p \<noteq> fst q \<and> non_contiguous (q # ps))"

subsection \<open>\<open>get_hours_below_price\<close> (lines 77 to 113)\<close>

text \<open>
  The \<open>SELECT\<close> of lines 95 to 98 on the rows of the table: the rows whose \<open>from_period\<close>
  is between the two bounds, both included, and whose price is below the threshold; of
  each its \<open>from_period\<close> and \<open>to_period\<close>; in ascending order of \<open>from_period\<close>.
\<close>

definition select_below ::
  "price_row list \<Rightarrow> string \<Rightarrow> string \<Rightarrow> rat \<Rightarrow> (string \<times> string) list" where
  "select_below rows lo hi threshold =
     sort_key fst
       (map (\<lambda>r. (from_period r, to_period r))
          (filter (\<lambda>r. lo \<le> from_period r \<and> from_period r \<le> hi \<and> price r < threshold)
             rows))"

text \<open>\<open>.split(' ')[0]\<close>: the text before the first blank.\<close>

definition first_field :: "string \<Rightarrow> string" where
  "first_field s = takeWhile (\<lambda>c. c \<noteq> CHR '' '') s"

text \<open>
  Lines 86 and 87, and 88 to 90 with \<open>days = 1\<close>: a reading of the clock, moved by
  \<open>days\<close> days, printed, sent through \<open>to_timezone\<close>, and cut to its date.
\<close>

definition local_date :: "externals \<Rightarrow> int \<Rightarrow> int \<Rightarrow> error + string" where
  "local_date ext now days =
     (if \<not> in_range now then Inl ValueError
      else if \<not> in_range (now + days * 86400) then Inl OverflowError
      else
        case to_timezone ext (strftime CHR ''T'' (civil (now + days * 86400)) @ ''Z'')
               ''Europe/London'' of
          Inl e \<Rightarrow> Inl e
        | Inr s \<Rightarrow> Inr (first_field s))"

text \<open>
  The function, with the two readings of the clock it makes (\<open>now1\<close> at line 86, \<open>now2\<close> at
  line 88) and the threshold \<open>price\<close> of its signature named \<open>threshold\<close>.
\<close>

definition get_hours_below_price ::
  "externals \<Rightarrow> mysql \<Rightarrow> int \<Rightarrow> int \<Rightarrow> rat \<Rightarrow> error + (string \<times> string) list" where
  "get_hours_below_price ext con now1 now2 threshold =
     (case local_date ext now1 0 of Inl e \<Rightarrow> Inl e | Inr today \<Rightarrow>
      case local_date ext now2 1 of Inl e \<Rightarrow> Inl e | Inr tomorrow \<Rightarrow>
      case con of
        Table rows \<Rightarrow>
          Inr (continuous_hours_str
                 (select_below rows (today @ '' 00:00:00'') (tomorrow @ '' 23:59:59'')
                    threshold))
      | _ \<Rightarrow> Inl DatabaseError)"

subsection \<open>\<open>format_hours\<close> (lines 116 to 122)\<close>

definition format_hours :: "(string \<times> string) list \<Rightarrow> string" where
  "format_hours hours =
     foldl (\<lambda>html h. html @ ''<tr><td>'' @ fst h @ ''</td><td></td><td>'' @ snd h
                        @ ''</td></tr>'')
       '''' hours"

text \<open>
  How often the text \<open>pat\<close> occurs in a text, to count the rows of a rendered report.
\<close>

fun occurrences :: "string \<Rightarrow> string \<Rightarrow> nat" where
  "occurrences pat [] = 0"
| "occurrences pat (c # cs) =
     (if take (length pat) (c # cs) = pat then 1 else 0) + occurrences pat cs"

subsection \<open>\<open>main\<close> (lines 138 to 167)\<close>

text \<open>Python's \<open>str\<close> of an integer.\<close>

fun str_nat :: "nat \<Rightarrow> string" where
  "str_nat n =
     (if n < 10 then [digit_char (int n)]
      else str_nat (n div 10) @ [digit_char (int (n mod 10))])"

declare str_nat.simps [simp del]

definition str_int :: "int \<Rightarrow> string" where
  "str_int i = (if i < 0 then CHR ''-'' # str_nat (nat (- i)) else str_nat (nat i))"

text \<open>The text of lines 148 to 152 for the threshold \<open>t\<close>, line breaks and indentation kept.\<close>

definition section_header :: "int \<Rightarrow> string" where
  "section_header t =
     [CHR 0x0A] @ ''        <b>Hours below '' @ str_int t @ ''p/kWh:</b><br>''
     @ [CHR 0x0A] @ ''        <table>''
     @ [CHR 0x0A] @ ''        <tr><th>From</th><th></th><th>To</th></tr>''
     @ [CHR 0x0A] @ ''        ''"

text \<open>What one round of the loop of lines 146 to 154 appends to \<open>html\<close>.\<close>

definition report_section :: "int \<Rightarrow> (string \<times> string) list \<Rightarrow> string" where
  "report_section t hours = section_header t @ format_hours hours @ ''</table><br>''"

text \<open>
  The loop of lines 146 to 154 over the thresholds; \<open>k\<close> counts the readings of the clock
  made so far, two for each call of \<open>get_hours_below_price\<close>.
\<close>

fun report_loop :: "externals \<Rightarrow> mysql \<Rightarrow> nat \<Rightarrow> int list \<Rightarrow> string \<Rightarrow> error + string" where
  "report_loop ext con k [] html = Inr html"
| "report_loop ext con k (t # ts) html =
     (case get_hours_below_price ext con (utcnow ext k) (utcnow ext (k + 1)) (of_int t) of
        Inl e \<Rightarrow> Inl e
      | Inr hours \<Rightarrow> report_loop ext con (k + 2) ts (html @ report_section t hours))"

text \<open>
  The configuration file as \<open>configparser\<close> presents it: \<open>config section\<close> is the section,
  a map from option names to values; a missing section or option raises \<open>KeyError\<close>.
\<close>

definition config_get ::
  "(string \<Rightarrow> (string \<Rightarrow> string option) option) \<Rightarrow> string \<Rightarrow> string \<Rightarrow> error + string" where
  "config_get config sec opt =
     (case config sec of
        None \<Rightarrow> Inl (KeyError sec)
      | Some options \<Rightarrow>
          (case options opt of None \<Rightarrow> Inl (KeyError opt) | Some v \<Rightarrow> Inr v))"

text \<open>
  \<open>main\<close> from line 138 on, the connection of lines 126 to 135 being open. The result is
  the report sent or the exception that ended the run, and the committed state of the
  server after the run.
\<close>

definition main ::
  "externals \<Rightarrow> (string \<Rightarrow> (string \<Rightarrow> string option) option) \<Rightarrow> mysql
     \<Rightarrow> (error + string) \<times> mysql" where
  "main ext config con =
     (case config_get config ''octopus'' ''api_key'' of Inl e \<Rightarrow> (Inl e, con) | Inr api_key \<Rightarrow>
      case config_get config ''octopus'' ''product_code'' of Inl e \<Rightarrow> (Inl e, con)
      | Inr product_code \<Rightarrow>
      case get_price ext api_key product_code of Inl e \<Rightarrow> (Inl e, con) | Inr unit_rates \<Rightarrow>
      case insert_price ext con unit_rates of Inl e \<Rightarrow> (Inl e, con) | Inr con' \<Rightarrow>
      case report_loop ext con' 0 [20, 10, 0] '''' of Inl e \<Rightarrow> (Inl e, con') | Inr html \<Rightarrow>
      case config_get config ''notification'' ''recipients'' of Inl e \<Rightarrow> (Inl e, con')
      | Inr recipients \<Rightarrow>
      case gmail_send ext recipients ''Octopus price'' html of
        Some e \<Rightarrow> (Inl e, con')
      | None \<Rightarrow> (Inr html, con'))"

subsection \<open>Repeated ingestion and sample data\<close>

text \<open>
  \<open>n\<close> runs of \<open>insert_price\<close> on the same document, each on the state the run before
  committed; the first error ends them.
\<close>

fun ingest_times :: "externals \<Rightarrow> nat \<Rightarrow> mysql \<Rightarrow> json \<Rightarrow> error + mysql" where
  "ingest_times ext 0 con prices = Inr con"
| "ingest_times ext (Suc n) con prices =
     (case insert_price ext con prices of
        Inl e \<Rightarrow> Inl e
      | Inr con' \<Rightarrow> ingest_times ext n con' prices)"

text \<open>
  A concrete outside world for the examples: no network, London's offsets of the year
  2021 (summer time from 2021-03-28 01:00 UTC to 2021-10-31 01:00 UTC), a clock that
  stands at 2021-07-01 12:00:00 UTC, a mail backend that accepts everything.
\<close>

definition sample_externals :: externals where
  "sample_externals =
     \<lparr>requests_get = (\<lambda>url auth. Inl ConnectionError),
      timezone = (\<lambda>name. if name = ''Europe/London''
                           then Some (\<lambda>u. if 1616893200 \<le> u \<and> u < 1635642000 then 3600 else 0)
                           else None),
      other_isoformat = (\<lambda>s. Inl ValueError),
      float_column = (\<lambda>x. x),
      other_price = (\<lambda>j. Inl DatabaseError),
      utcnow = (\<lambda>k. 1625140800),
      gmail_send = (\<lambda>recipients subject body. None)\<rparr>"

text \<open>A document of the form the tariff API sends, with two half hours.\<close>

definition sample_prices :: json where
  "sample_prices =
     JObj [(''count'', JNum 2),
           (''results'',
            JArr [JObj [(''value_inc_vat'', JNum (31 / 2)),
                        (''valid_from'', JStr ''2021-07-01T23:30:00Z''),
                        (''valid_to'', JStr ''2021-07-02T00:00:00Z'')],
                  JObj [(''value_inc_vat'', JNum 9),
                        (''valid_from'', JStr ''2021-07-01T23:00:00Z''),
                        (''valid_to'', JStr ''2021-07-01T23:30:00Z'')]])]"

text \<open>The two rows that document becomes.\<close>

definition sample_rows :: "price_row list" where
  "sample_rows =
     [\<lparr>from_period = ''2021-07-02 00:30:00'', to_period = ''2021-07-02 01:00:00'',
        price = 31 / 2\<rparr>,
      \<lparr>from_period = ''2021-07-02 00:00:00'', to_period = ''2021-07-02 00:30:00'',
        price = 9\<rparr>]"

text \<open>
  The same world with a server that refuses the API key: status 401 and a JSON body that
  names the error. And with a gateway that answers status 502 and a body that is not JSON.
\<close>

definition sample_unauthorized :: externals where
  "sample_unauthorized =
     sample_externals
       \<lparr>requests_get := (\<lambda>url auth.
          Inr \<lparr>status_code = 401,
               json_body = Some (JObj [(''detail'', JStr ''Invalid API key.'')])\<rparr>)\<rparr>"

definition sample_bad_gateway :: externals where
  "sample_bad_gateway =
     sample_externals
       \<lparr>requests_get := (\<lambda>url auth. Inr \<lparr>status_code = 502, json_body = None\<rparr>)\<rparr>"

text \<open>A configuration file with the sections and options \<open>main\<close> reads.\<close>

definition sample_config :: "string \<Rightarrow> (string \<Rightarrow> string option) option" where
  "sample_config sec =
     (if sec = ''octopus''
      then Some (map_of [(''api_key'', ''sk_live_0000''), (''product_code'', ''AGILE-18-02-21'')])
      else if sec = ''notification''
      then Some (map_of [(''recipients'', ''someone@example.org'')])
      else None)"

section \<open>Properties\<close>

subsection \<open>The merger\<close>

lemma concat_step_snoc:
  "concat_step (finished @ [current]) hour =
     (if fst hour = snd current then finished @ [(fst current, snd hour)]
      else finished @ [current, hour])"
  by (simp add: concat_step_def)

lemma foldl_concat_step_scan:
  "foldl concat_step (finished @ [current]) hours = merge_scan finished current hours"
proof (induction hours arbitrary: finished current)
  case Nil
  show ?case by simp
next
  case (Cons hour hours)
  show ?case
  proof (cases "fst hour = snd current")
    case True
    then show ?thesis
      using Cons.IH [of finished "(fst current, snd hour)"]
      by (simp add: concat_step_snoc)
  next
    case False
    then show ?thesis
      using Cons.IH [of "finished @ [current]" hour]
      by (simp add: concat_step_snoc)
  qed
qed

lemma concat_hours_Cons:
  "concat_hours (first # rest) = merge_scan [] first rest"
  using foldl_concat_step_scan [of "[]" first rest]
  by (simp add: concat_hours_def)

lemma concat_loop_not_empty:
  "continuous_hours \<noteq> [] \<Longrightarrow> foldl concat_step continuous_hours hours \<noteq> []"
proof (induction hours arbitrary: continuous_hours)
  case Nil
  then show ?case by simp
next
  case (Cons hour hours)
  have "concat_step continuous_hours hour \<noteq> []"
    using Cons.prems by (simp add: concat_step_def)
  then show ?case
    using Cons.IH by simp
qed

text \<open>
  Claim C1. The code's merger is the specification's single left-to-right scan: on every
  sequence of pairs (ascending or not) it returns what the scan with a current interval
  returns, where a pair whose from equals the current to extends the current interval and
  any other pair closes it and opens a new one. The empty input gives the empty output and
  a single pair gives that pair alone, also after the seconds are dropped for display.
\<close>

theorem concat_hours_is_single_scan:
  "concat_hours hours = merge_spec hours
   \<and> concat_hours ([] :: ('a \<times> 'a) list) = []
   \<and> concat_hours [p] = [p]
   \<and> continuous_hours_str [] = []
   \<and> continuous_hours_str [q] = [(drop_seconds (fst q), drop_seconds (snd q))]"
proof -
  have "concat_hours hours = merge_spec hours"
  proof (cases hours)
    case Nil
    then show ?thesis by (simp add: concat_hours_def merge_spec_def)
  next
    case (Cons first rest)
    then show ?thesis by (simp add: concat_hours_Cons merge_spec_def)
  qed
  moreover have "concat_hours ([] :: ('a \<times> 'a) list) = []"
    by (simp add: concat_hours_def)
  moreover have "concat_hours [p] = [p]"
    by (simp add: concat_hours_def)
  moreover have "continuous_hours_str [] = []"
    by (simp add: continuous_hours_str_def concat_hours_def)
  moreover have "continuous_hours_str [q] = [(drop_seconds (fst q), drop_seconds (snd q))]"
    by (simp add: continuous_hours_str_def concat_hours_def)
  ultimately show ?thesis by blast
qed

text \<open>
  Claim C6. The periods 08:00 to 08:30, 08:30 to 09:00 and 10:00 to 10:30 of one day merge
  into the two intervals 08:00 to 09:00 and 10:00 to 10:30: first as the loop builds them
  from the rows, then as the function returns them, with the seconds dropped.
\<close>

theorem concat_hours_example:
  "concat_hours
     [(''2023-11-05 08:00:00'', ''2023-11-05 08:30:00''),
      (''2023-11-05 08:30:00'', ''2023-11-05 09:00:00''),
      (''2023-11-05 10:00:00'', ''2023-11-05 10:30:00'')]
   = [(''2023-11-05 08:00:00'', ''2023-11-05 09:00:00''),
      (''2023-11-05 10:00:00'', ''2023-11-05 10:30:00'')]
   \<and> continuous_hours_str
     [(''2023-11-05 08:00:00'', ''2023-11-05 08:30:00''),
      (''2023-11-05 08:30:00'', ''2023-11-05 09:00:00''),
      (''2023-11-05 10:00:00'', ''2023-11-05 10:30:00'')]
   = [(''2023-11-05 08:00'', ''2023-11-05 09:00''),
      (''2023-11-05 10:00'', ''2023-11-05 10:30'')]"
  by (simp add: continuous_hours_str_def concat_hours_def concat_step_def drop_seconds_def)

lemma contiguous_head_to:
  "contiguous ((a, snd p) # ps) = contiguous (p # ps)"
  by (cases ps) simp_all

lemma merge_scan_contiguous:
  "contiguous (current # ps) \<Longrightarrow>
     merge_scan finished current ps = finished @ [(fst current, snd (last (current # ps)))]"
proof (induction ps arbitrary: current)
  case Nil
  show ?case by simp
next
  case (Cons p ps)
  from Cons.prems have eq: "fst p = snd current" and rest: "contiguous (p # ps)"
    by simp_all
  from rest have "contiguous ((fst current, snd p) # ps)"
    by (simp add: contiguous_head_to)
  then have "merge_scan finished (fst current, snd p) ps
      = finished @ [(fst current, snd (last ((fst current, snd p) # ps)))]"
    using Cons.IH [of "(fst current, snd p)"] by simp
  moreover have "snd (last ((fst current, snd p) # ps)) = snd (last (current # p # ps))"
    by (cases ps) simp_all
  ultimately show ?case
    using eq by simp
qed

text \<open>
  Claim C7. A non-empty sequence of periods in which each period ends where the next one
  starts is merged into one interval, from the first period's from to the last period's to.
\<close>

theorem concat_hours_contiguous:
  assumes "hours \<noteq> []" and "contiguous hours"
  shows "concat_hours hours = [(fst (hd hours), snd (last hours))]"
proof -
  from assms(1) obtain first rest where hours: "hours = first # rest"
    by (cases hours) auto
  with assms(2) have "merge_scan [] first rest = [(fst first, snd (last (first # rest)))]"
    using merge_scan_contiguous [of first rest "[]"] by simp
  then show ?thesis
    unfolding hours by (simp add: concat_hours_Cons)
qed

theorem concat_hours_contiguous_witness:
  "[(1::nat, 2::nat), (2, 3), (3, 7)] \<noteq> []
   \<and> contiguous [(1::nat, 2::nat), (2, 3), (3, 7)]
   \<and> concat_hours [(1::nat, 2::nat), (2, 3), (3, 7)] = [(1, 7)]"
  using concat_hours_contiguous [of "[(1::nat, 2::nat), (2, 3), (3, 7)]"]
  by simp

lemma merge_scan_non_contiguous:
  "non_contiguous (current # ps) \<Longrightarrow> merge_scan finished current ps = finished @ current # ps"
proof (induction ps arbitrary: finished current)
  case Nil
  show ?case by simp
next
  case (Cons p ps)
  from Cons.prems have "fst p \<noteq> snd current" and "non_contiguous (p # ps)"
    by auto
  then show ?case
    using Cons.IH [of p "finished @ [current]"] by simp
qed

lemma concat_hours_fixed:
  "non_contiguous hours \<Longrightarrow> concat_hours hours = hours"
proof (cases hours)
  case Nil
  then show ?thesis by (simp add: concat_hours_def)
next
  case (Cons first rest)
  assume "non_contiguous hours"
  then show ?thesis
    unfolding Cons using merge_scan_non_contiguous [of first rest "[]"]
    by (simp add: concat_hours_Cons)
qed

text \<open>
  Claim C8. When no period of the sequence ends where the next one starts, the merger
  joins nothing: its output has as many intervals as the input has periods (it is the
  input itself).
\<close>

theorem concat_hours_non_contiguous_length:
  assumes "non_contiguous hours"
  shows "length (concat_hours hours) = length hours \<and> concat_hours hours = hours"
  using concat_hours_fixed [OF assms] by simp

theorem concat_hours_non_contiguous_length_witness:
  "non_contiguous [(1::nat, 2::nat), (3, 4), (6, 7)]
   \<and> length (concat_hours [(1::nat, 2::nat), (3, 4), (6, 7)]) = 3"
  using concat_hours_non_contiguous_length [of "[(1::nat, 2::nat), (3, 4), (6, 7)]"]
  by simp

lemma non_contiguous_snoc:
  "non_contiguous (xs @ [y]) = (non_contiguous xs \<and> (xs \<noteq> [] \<longrightarrow> snd (last xs) \<noteq> fst y))"
  by (induction xs rule: non_contiguous.induct) auto

lemma merge_scan_maximal:
  "non_contiguous (finished @ [current]) \<Longrightarrow> non_contiguous (merge_scan finished current ps)"
proof (induction ps arbitrary: finished current)
  case Nil
  then show ?case by simp
next
  case (Cons p ps)
  show ?case
  proof (cases "fst p = snd current")
    case True
    from Cons.prems have "non_contiguous (finished @ [(fst current, snd p)])"
      by (simp add: non_contiguous_snoc)
    then show ?thesis
      using True Cons.IH [of finished "(fst current, snd p)"] by simp
  next
    case False
    with Cons.prems have "non_contiguous ((finished @ [current]) @ [p])"
      by (subst non_contiguous_snoc) simp
    then show ?thesis
      using False Cons.IH [of "finished @ [current]" p] by simp
  qed
qed

lemma non_contiguous_concat_hours:
  "non_contiguous (concat_hours hours)"
proof (cases hours)
  case Nil
  then show ?thesis by (simp add: concat_hours_def)
next
  case (Cons first rest)
  then show ?thesis
    using merge_scan_maximal [of "[]" first rest] by (simp add: concat_hours_Cons)
qed

text \<open>
  Claim C10. The list the loop builds is maximally merged: no interval of it starts where
  the interval before it ends, so running the merger on its own output changes nothing.
  This holds for every input, hence for the strictly ascending, non-overlapping inputs of
  the claim.
\<close>

theorem concat_hours_maximal:
  "non_contiguous (concat_hours hours)
   \<and> concat_hours (concat_hours hours) = concat_hours hours"
  using non_contiguous_concat_hours [of hours]
    concat_hours_fixed [of "concat_hours hours"]
  by simp

lemma merge_scan_times:
  "fst ` set (merge_scan finished current ps) \<subseteq> fst ` set (finished @ current # ps)
   \<and> snd ` set (merge_scan finished current ps) \<subseteq> snd ` set (finished @ current # ps)"
proof (induction ps arbitrary: finished current)
  case Nil
  show ?case by simp
next
  case (Cons p ps)
  show ?case
  proof (cases "fst p = snd current")
    case True
    then show ?thesis
      using Cons.IH [of finished "(fst current, snd p)"] by auto
  next
    case False
    then show ?thesis
      using Cons.IH [of "finished @ [current]" p] by auto
  qed
qed

lemma concat_hours_times:
  "fst ` set (concat_hours hours) \<subseteq> fst ` set hours
   \<and> snd ` set (concat_hours hours) \<subseteq> snd ` set hours"
proof (cases hours)
  case Nil
  then show ?thesis by (simp add: concat_hours_def)
next
  case (Cons first rest)
  then show ?thesis
    using merge_scan_times [of "[]" first rest] by (simp add: concat_hours_Cons)
qed

lemma drop_seconds_inj:
  assumes "drop (length s - 3) s = sec" and "drop (length t - 3) t = sec"
    and "drop_seconds s = drop_seconds t"
  shows "s = t"
proof -
  have "s = drop_seconds s @ sec"
    using assms(1) append_take_drop_id [of "length s - 3" s] by (simp add: drop_seconds_def)
  moreover have "t = drop_seconds t @ sec"
    using assms(2) append_take_drop_id [of "length t - 3" t] by (simp add: drop_seconds_def)
  ultimately show ?thesis
    using assms(3) by metis
qed

lemma non_contiguous_map:
  assumes "non_contiguous xs"
    and "\<forall>h \<in> set xs. P (fst h) \<and> P (snd h)"
    and "\<And>a b. P a \<Longrightarrow> P b \<Longrightarrow> g a = g b \<Longrightarrow> a = b"
  shows "non_contiguous (map (\<lambda>h. (g (fst h), g (snd h))) xs)"
  using assms(1,2)
proof (induction xs rule: non_contiguous.induct)
  case 1
  show ?case by simp
next
  case (2 p)
  show ?case by simp
next
  case (3 p q ps)
  then have "g (snd p) \<noteq> g (fst q)"
    using assms(3) [of "snd p" "fst q"] by auto
  with 3 show ?case by simp
qed

text \<open>
  The texts that \<open>get_hours_below_price\<close> returns have lost their seconds. They keep the
  property when all the timestamps of the rows carry the same seconds, as the half hours
  of the tariff do.
\<close>

lemma continuous_hours_str_maximal:
  assumes "\<forall>h \<in> set hours. drop (length (fst h) - 3) (fst h) = sec
             \<and> drop (length (snd h) - 3) (snd h) = sec"
  shows "non_contiguous (continuous_hours_str hours)"
proof -
  let ?P = "\<lambda>s. drop (length s - 3) s = sec"
  have "\<forall>h \<in> set (concat_hours hours). ?P (fst h) \<and> ?P (snd h)"
  proof
    fix h
    assume "h \<in> set (concat_hours hours)"
    then have "fst h \<in> fst ` set hours" and "snd h \<in> snd ` set hours"
      using concat_hours_times [of hours] by auto
    with assms show "?P (fst h) \<and> ?P (snd h)" by auto
  qed
  with non_contiguous_concat_hours [of hours] show ?thesis
    unfolding continuous_hours_str_def
    by (rule non_contiguous_map) (rule drop_seconds_inj)
qed

subsection \<open>The report\<close>

lemma format_hours_acc:
  "foldl (\<lambda>html h. html @ ''<tr><td>'' @ fst h @ ''</td><td></td><td>'' @ snd h @ ''</td></tr>'')
     acc hours
   = acc @ concat (map (\<lambda>h. ''<tr><td>'' @ fst h @ ''</td><td></td><td>'' @ snd h
                              @ ''</td></tr>'') hours)"
  by (induction hours arbitrary: acc) simp_all

lemma format_hours_concat:
  "format_hours hours
   = concat (map (\<lambda>h. ''<tr><td>'' @ fst h @ ''</td><td></td><td>'' @ snd h @ ''</td></tr>'')
       hours)"
  using format_hours_acc [of "[]" hours] by (simp add: format_hours_def)

lemma occurrences_skip_char:
  "CHR ''<'' \<noteq> c \<Longrightarrow> occurrences ''<tr><td>'' (c # cs) = occurrences ''<tr><td>'' cs"
  by auto

lemma occurrences_skip:
  "CHR ''<'' \<notin> set xs \<Longrightarrow> occurrences ''<tr><td>'' (xs @ ys) = occurrences ''<tr><td>'' ys"
  by (induction xs) (simp_all add: occurrences_skip_char del: occurrences.simps)

lemma occurrences_row:
  assumes "CHR ''<'' \<notin> set a" and "CHR ''<'' \<notin> set b"
  shows "occurrences ''<tr><td>'' (''<tr><td>'' @ a @ ''</td><td></td><td>'' @ b @ ''</td></tr>'' @ rest)
         = Suc (occurrences ''<tr><td>'' rest)"
  using assms by (simp add: occurrences_skip)

lemma occurrences_rows:
  "\<forall>h \<in> set hours. CHR ''<'' \<notin> set (fst h) \<and> CHR ''<'' \<notin> set (snd h) \<Longrightarrow>
   occurrences ''<tr><td>''
     (concat (map (\<lambda>h. ''<tr><td>'' @ fst h @ ''</td><td></td><td>'' @ snd h @ ''</td></tr>'')
        hours) @ rest)
   = length hours + occurrences ''<tr><td>'' rest"
proof (induction hours)
  case Nil
  show ?case by simp
next
  case (Cons h hours)
  then show ?case
    using occurrences_row [of "fst h" "snd h"] by (simp del: occurrences.simps)
qed

lemma digit_char_no_lt: "0 \<le> n \<Longrightarrow> n < 10 \<Longrightarrow> CHR ''<'' \<noteq> digit_char n"
proof -
  assume "0 \<le> n" "n < 10"
  then have "n = 0 \<or> n = 1 \<or> n = 2 \<or> n = 3 \<or> n = 4 \<or> n = 5 \<or> n = 6 \<or> n = 7 \<or> n = 8 \<or> n = 9"
    by arith
  then show ?thesis by (auto simp: digit_char_def)
qed

lemma str_nat_no_lt: "CHR ''<'' \<notin> set (str_nat n)"
proof (induction n rule: str_nat.induct)
  case (1 n)
  show ?case
  proof (cases "n < 10")
    case True
    then show ?thesis using digit_char_no_lt [of "int n"] by (subst str_nat.simps) simp
  next
    case False
    then show ?thesis
      using 1 digit_char_no_lt [of "int (n mod 10)"] by (subst str_nat.simps) simp
  qed
qed

lemma str_int_no_lt: "CHR ''<'' \<notin> set (str_int t)"
  by (simp add: str_int_def str_nat_no_lt)

lemma occurrences_header:
  "occurrences ''<tr><td>'' (section_header t @ rest) = occurrences ''<tr><td>'' rest"
  using str_int_no_lt [of t]
  by (simp add: section_header_def occurrences_skip)

lemma report_loop_sections:
  "report_loop ext con k ts html = Inr out \<Longrightarrow>
   \<exists>hs. length hs = length ts \<and> out = html @ concat (map2 report_section ts hs)"
proof (induction ts arbitrary: k html)
  case Nil
  then show ?case by simp
next
  case (Cons t ts)
  from Cons.prems obtain hours where
    rest: "report_loop ext con (k + 2) ts (html @ report_section t hours) = Inr out"
    by (auto split: sum.splits)
  from Cons.IH [OF rest] obtain hs where
    "length hs = length ts" "out = (html @ report_section t hours) @ concat (map2 report_section ts hs)"
    by blast
  then have "length (hours # hs) = length (t # ts)
      \<and> out = html @ concat (map2 report_section (t # ts) (hours # hs))"
    by simp
  then show ?case by blast
qed

text \<open>
  Claim C9. \<open>format_hours\<close> renders one table row for each interval, in order: the start,
  an empty cell, the end. When the cells hold no \<open><\<close> (as the minute texts of
  \<open>get_hours_below_price\<close> do), the rendered text and the section built around it hold as
  many rows as there are intervals. For no interval the section is the threshold's header
  followed by the closing of the table, with no row.
\<close>

theorem format_hours_one_row_each:
  assumes "\<forall>h \<in> set hours. CHR ''<'' \<notin> set (fst h) \<and> CHR ''<'' \<notin> set (snd h)"
  shows "format_hours hours
           = concat (map (\<lambda>h. ''<tr><td>'' @ fst h @ ''</td><td></td><td>'' @ snd h
                                  @ ''</td></tr>'') hours)
         \<and> occurrences ''<tr><td>'' (format_hours hours) = length hours
         \<and> occurrences ''<tr><td>'' (report_section t hours) = length hours
         \<and> format_hours [] = []
         \<and> report_section t [] = section_header t @ ''</table><br>''
         \<and> occurrences ''<tr><td>'' (report_section t []) = 0"
proof -
  have rows: "format_hours hours
      = concat (map (\<lambda>h. ''<tr><td>'' @ fst h @ ''</td><td></td><td>'' @ snd h
                             @ ''</td></tr>'') hours)"
    by (rule format_hours_concat)
  have count: "occurrences ''<tr><td>'' (format_hours hours @ rest)
      = length hours + occurrences ''<tr><td>'' rest" for rest
    unfolding rows using occurrences_rows [OF assms] by simp
  have "occurrences ''<tr><td>'' (format_hours hours) = length hours"
    using count [of "[]"] by simp
  moreover have "occurrences ''<tr><td>'' (report_section t hours) = length hours"
    unfolding report_section_def
    by (simp only: occurrences_header count) simp
  moreover have empty: "format_hours [] = []"
    by (simp add: format_hours_def)
  moreover have "report_section t [] = section_header t @ ''</table><br>''"
    by (simp add: report_section_def empty)
  moreover have "occurrences ''<tr><td>'' (report_section t []) = 0"
    unfolding report_section_def empty
    by (simp only: occurrences_header append_Nil) simp
  ultimately show ?thesis
    using rows by blast
qed

theorem format_hours_one_row_each_witness:
  "CHR ''<'' \<notin> set ''2023-11-05 08:00'' \<and> CHR ''<'' \<notin> set ''2023-11-05 09:00''
   \<and> format_hours [(''2023-11-05 08:00'', ''2023-11-05 09:00'')]
       = ''<tr><td>2023-11-05 08:00</td><td></td><td>2023-11-05 09:00</td></tr>''
   \<and> occurrences ''<tr><td>''
         (report_section 20 [(''2023-11-05 08:00'', ''2023-11-05 09:00'')]) = 1"
  using format_hours_one_row_each [of "[(''2023-11-05 08:00'', ''2023-11-05 09:00'')]" 20]
  by simp

subsection \<open>The price store\<close>

lemma create_table_Table: "\<exists>rows. create_table con = Table rows"
  by (cases con) (simp_all add: create_table_def)

lemma create_table_again: "create_table (create_table con) = create_table con"
  by (cases con) (simp_all add: create_table_def)

lemma insert_ignore_present:
  "from_period r \<in> set (map from_period rows) \<Longrightarrow> insert_ignore rows r = rows"
  by (simp add: insert_ignore_def)

lemma insert_ignore_keys:
  "set (map from_period (insert_ignore rows r)) = insert (from_period r) (set (map from_period rows))"
  by (auto simp: insert_ignore_def)

lemma insert_ignore_distinct:
  "distinct (map from_period rows) \<Longrightarrow> distinct (map from_period (insert_ignore rows r))"
  by (simp add: insert_ignore_def)

lemma insert_ignore_extends:
  "\<exists>new. insert_ignore rows r = rows @ new"
  by (simp add: insert_ignore_def)

lemma insert_loop_Table:
  assumes "insert_loop ext (Table rows) ps = Inr con'"
  shows "\<exists>new. con' = Table (rows @ new)
           \<and> (distinct (map from_period rows) \<longrightarrow> distinct (map from_period (rows @ new)))
           \<and> (\<forall>p \<in> set ps. \<exists>r. price_row_of ext p = Inr r
                  \<and> from_period r \<in> set (map from_period (rows @ new)))"
  using assms
proof (induction ps arbitrary: rows)
  case Nil
  then have "con' = Table (rows @ [])" by simp
  then show ?case by (intro exI [of _ "[]"]) simp
next
  case (Cons p ps)
  from Cons.prems obtain r where r: "price_row_of ext p = Inr r"
    and rest: "insert_loop ext (Table (insert_ignore rows r)) ps = Inr con'"
    by (auto simp: execute_insert_def split: sum.splits)
  obtain one where one: "insert_ignore rows r = rows @ one"
    using insert_ignore_extends by blast
  from Cons.IH [OF rest] obtain new where
    con': "con' = Table (insert_ignore rows r @ new)"
    and dist: "distinct (map from_period (insert_ignore rows r))
        \<longrightarrow> distinct (map from_period (insert_ignore rows r @ new))"
    and keys: "\<forall>p \<in> set ps. \<exists>r'. price_row_of ext p = Inr r'
        \<and> from_period r' \<in> set (map from_period (insert_ignore rows r @ new))"
    by blast
  have "from_period r \<in> set (map from_period (insert_ignore rows r @ new))"
    using insert_ignore_keys [of rows r] by auto
  with r keys have all: "\<forall>q \<in> set (p # ps). \<exists>r'. price_row_of ext q = Inr r'
        \<and> from_period r' \<in> set (map from_period (insert_ignore rows r @ new))"
    by simp
  have "distinct (map from_period rows)
      \<longrightarrow> distinct (map from_period (insert_ignore rows r @ new))"
    using dist insert_ignore_distinct [of rows r] by blast
  with con' all show ?case
    unfolding one by (intro exI [of _ "one @ new"]) simp
qed

lemma insert_loop_all_present:
  assumes "\<forall>p \<in> set ps. \<exists>r. price_row_of ext p = Inr r
             \<and> from_period r \<in> set (map from_period rows)"
  shows "insert_loop ext (Table rows) ps = Inr (Table rows)"
  using assms
proof (induction ps)
  case Nil
  show ?case by simp
next
  case (Cons p ps)
  then obtain r where "price_row_of ext p = Inr r"
    and "from_period r \<in> set (map from_period rows)"
    by auto
  then have "insert_loop ext (Table rows) (p # ps) = insert_loop ext (Table rows) ps"
    by (simp add: execute_insert_def insert_ignore_present)
  with Cons show ?case by simp
qed

lemma insert_price_loop:
  assumes "insert_price ext (Table rows) prices = Inr con'"
  obtains results ps where "subscript prices ''results'' = Inr results"
    and "iterate results = Inr ps" and "insert_loop ext (Table rows) ps = Inr con'"
  using assms by (auto simp: insert_price_def split: sum.splits)

lemma insert_price_again:
  assumes "insert_price ext (Table rows) prices = Inr con'"
  shows "insert_price ext con' prices = Inr con'"
proof -
  from assms obtain results ps where res: "subscript prices ''results'' = Inr results"
    and it: "iterate results = Inr ps" and loop: "insert_loop ext (Table rows) ps = Inr con'"
    by (rule insert_price_loop)
  from insert_loop_Table [OF loop] obtain new where con': "con' = Table (rows @ new)"
    and keys: "\<forall>p \<in> set ps. \<exists>r. price_row_of ext p = Inr r
        \<and> from_period r \<in> set (map from_period (rows @ new))"
    by blast
  have "insert_loop ext (Table (rows @ new)) ps = Inr (Table (rows @ new))"
    using keys by (rule insert_loop_all_present)
  then show ?thesis
    unfolding con' by (simp add: insert_price_def res it)
qed

lemma ingest_times_fixed:
  "insert_price ext con prices = Inr con \<Longrightarrow> ingest_times ext n con prices = Inr con"
  by (induction n) simp_all

lemma count_one_of_distinct:
  "distinct (map f xs) \<Longrightarrow> k \<in> set (map f xs) \<Longrightarrow> length (filter (\<lambda>x. f x = k) xs) = 1"
proof (induction xs)
  case Nil
  then show ?case by simp
next
  case (Cons x xs)
  show ?case
  proof (cases "f x = k")
    case True
    with Cons.prems have "k \<notin> f ` set xs" by auto
    then have "filter (\<lambda>x. f x = k) xs = []"
      by (auto simp: filter_empty_conv)
    with True show ?thesis by simp
  next
    case False
    with Cons show ?thesis by auto
  qed
qed

text \<open>
  Claim C2. Ingestion is idempotent on the period start. When a batch has been inserted
  into a table with distinct keys, the table has only grown at its end and still has
  distinct keys; a second run on the same batch, and any number of runs, leave it as the
  first run did; each record of the batch has exactly one row with its from; and inserting
  a row whose from is in the table is not an error and changes nothing. Creating the
  schema again keeps the table.
\<close>

theorem insert_price_idempotent:
  assumes "distinct (map from_period rows)"
    and "insert_price ext (Table rows) prices = Inr con'"
  shows "\<exists>new. con' = Table (rows @ new)
           \<and> distinct (map from_period (rows @ new))
           \<and> insert_price ext con' prices = Inr con'
           \<and> ingest_times ext (Suc n) (Table rows) prices = Inr con'
           \<and> (\<forall>results ps p r.
                 subscript prices ''results'' = Inr results \<and> iterate results = Inr ps
                 \<and> p \<in> set ps \<and> price_row_of ext p = Inr r
                 \<longrightarrow> length (filter (\<lambda>x. from_period x = from_period r) (rows @ new)) = 1)
           \<and> (\<forall>r. from_period r \<in> set (map from_period (rows @ new))
                 \<longrightarrow> execute_insert con' r = Inr con')
           \<and> create_table con' = con'"
proof -
  from assms(2) obtain results ps where res: "subscript prices ''results'' = Inr results"
    and it: "iterate results = Inr ps" and loop: "insert_loop ext (Table rows) ps = Inr con'"
    by (rule insert_price_loop)
  from insert_loop_Table [OF loop] assms(1) obtain new where con': "con' = Table (rows @ new)"
    and dist: "distinct (map from_period (rows @ new))"
    and keys: "\<forall>p \<in> set ps. \<exists>r. price_row_of ext p = Inr r
        \<and> from_period r \<in> set (map from_period (rows @ new))"
    by blast
  have again: "insert_price ext con' prices = Inr con'"
    using assms(2) by (rule insert_price_again)
  have times: "ingest_times ext (Suc n) (Table rows) prices = Inr con'"
    using assms(2) ingest_times_fixed [OF again, of n] by simp
  have one: "length (filter (\<lambda>x. from_period x = from_period r) (rows @ new)) = 1"
    if "subscript prices ''results'' = Inr results'" "iterate results' = Inr ps'"
      "p \<in> set ps'" "price_row_of ext p = Inr r" for results' ps' p r
  proof -
    from that res it have "p \<in> set ps" by simp
    with keys that(4) have "from_period r \<in> set (map from_period (rows @ new))" by auto
    with dist show ?thesis by (rule count_one_of_distinct)
  qed
  have skip: "execute_insert con' r = Inr con'"
    if "from_period r \<in> set (map from_period (rows @ new))" for r
    unfolding con' using that by (simp add: execute_insert_def insert_ignore_present)
  have schema: "create_table con' = con'"
    unfolding con' by (simp add: create_table_def)
  from con' dist again times one skip schema show ?thesis
    by (intro exI [of _ new]) blast
qed

lemma sample_insert: "insert_price sample_externals (Table []) sample_prices = Inr (Table sample_rows)"
  by code_simp

theorem insert_price_idempotent_witness:
  "distinct (map from_period ([] :: price_row list))
   \<and> insert_price sample_externals (Table []) sample_prices = Inr (Table sample_rows)
   \<and> insert_price sample_externals (Table sample_rows) sample_prices = Inr (Table sample_rows)
   \<and> ingest_times sample_externals 3 (Table []) sample_prices = Inr (Table sample_rows)
   \<and> length (filter (\<lambda>x. from_period x = ''2021-07-02 00:30:00'') sample_rows) = 1"
proof -
  have d: "distinct (map from_period ([] :: price_row list))" by simp
  have n: "Suc 2 = 3" by simp
  have l: "length (filter (\<lambda>x. from_period x = ''2021-07-02 00:30:00'') sample_rows) = 1"
    by code_simp
  from insert_price_idempotent [OF d sample_insert, of 2]
  show ?thesis
    using sample_insert l by (auto simp: n)
qed

lemma select_below_mset:
  "mset (select_below rows lo hi threshold)
   = image_mset (\<lambda>r. (from_period r, to_period r))
       (filter_mset (\<lambda>r. lo \<le> from_period r \<and> from_period r \<le> hi \<and> price r < threshold)
          (mset rows))"
  by (simp add: select_below_def)

lemma select_below_sorted:
  "sorted (map fst (select_below rows lo hi threshold))"
  by (simp add: select_below_def)

lemma select_below_distinct:
  assumes "distinct (map from_period rows)"
  shows "distinct (map fst (select_below rows lo hi threshold))"
proof -
  let ?q = "\<lambda>r. lo \<le> from_period r \<and> from_period r \<le> hi \<and> price r < threshold"
  have "mset (map fst (select_below rows lo hi threshold))
      = mset (map from_period (filter ?q rows))"
    by (simp add: select_below_def multiset.map_comp comp_def)
  moreover have "distinct (map from_period (filter ?q rows))"
    using assms by (rule distinct_map_filter)
  ultimately show ?thesis
    using mset_eq_imp_distinct_iff by blast
qed

lemma select_below_strictly_ascending:
  "distinct (map from_period rows) \<Longrightarrow>
     sorted_wrt (<) (map fst (select_below rows lo hi threshold))"
  using select_below_sorted [of rows lo hi threshold] select_below_distinct [of rows lo hi threshold]
  by (simp add: strict_sorted_iff)

lemma select_below_empty_iff:
  "(select_below rows lo hi threshold = [])
   = (\<forall>r \<in> set rows. \<not> (lo \<le> from_period r \<and> from_period r \<le> hi \<and> price r < threshold))"
proof -
  let ?q = "\<lambda>r. lo \<le> from_period r \<and> from_period r \<le> hi \<and> price r < threshold"
  have "length (select_below rows lo hi threshold) = length (filter ?q rows)"
    by (simp add: select_below_def)
  then have "(select_below rows lo hi threshold = []) = (filter ?q rows = [])"
    by (simp only: length_0_conv [symmetric])
  then show ?thesis
    by (simp only: filter_empty_conv)
qed

lemma get_hours_below_price_Table:
  "local_date ext now1 0 = Inr today \<Longrightarrow> local_date ext now2 1 = Inr tomorrow \<Longrightarrow>
   get_hours_below_price ext (Table rows) now1 now2 threshold
   = Inr (continuous_hours_str
            (select_below rows (today @ '' 00:00:00'') (tomorrow @ '' 23:59:59'') threshold))"
  by (simp add: get_hours_below_price_def)

text \<open>
  Claim C4. For every threshold and every pair of bounds, the query returns the from and to
  of exactly the stored rows whose price is below the threshold and whose from lies between
  the bounds (both included), each once, in strictly ascending order of from, and nothing
  when no row qualifies. \<open>get_hours_below_price\<close> runs it with the bounds today 00:00:00
  and tomorrow 23:59:59 and returns the empty list, not an error, when it finds nothing.
\<close>

theorem select_below_exact:
  assumes "distinct (map from_period rows)"
    and "local_date ext now1 0 = Inr today"
    and "local_date ext now2 1 = Inr tomorrow"
  shows "mset (select_below rows lo hi threshold)
           = image_mset (\<lambda>r. (from_period r, to_period r))
               (filter_mset
                  (\<lambda>r. lo \<le> from_period r \<and> from_period r \<le> hi \<and> price r < threshold)
                  (mset rows))
         \<and> sorted_wrt (<) (map fst (select_below rows lo hi threshold))
         \<and> (select_below rows lo hi threshold = [])
             = (\<forall>r \<in> set rows.
                  \<not> (lo \<le> from_period r \<and> from_period r \<le> hi \<and> price r < threshold))
         \<and> get_hours_below_price ext (Table rows) now1 now2 threshold
             = Inr (continuous_hours_str
                      (select_below rows (today @ '' 00:00:00'') (tomorrow @ '' 23:59:59'')
                         threshold))
         \<and> (select_below rows (today @ '' 00:00:00'') (tomorrow @ '' 23:59:59'') threshold = []
              \<longrightarrow> get_hours_below_price ext (Table rows) now1 now2 threshold = Inr [])"
proof -
  have "select_below rows (today @ '' 00:00:00'') (tomorrow @ '' 23:59:59'') threshold = []
      \<longrightarrow> get_hours_below_price ext (Table rows) now1 now2 threshold = Inr []"
    using get_hours_below_price_Table [OF assms(2,3), of rows threshold]
    by (simp add: continuous_hours_str_def concat_hours_def)
  then show ?thesis
    using select_below_mset [of rows lo hi threshold]
      select_below_strictly_ascending [OF assms(1), of lo hi threshold]
      select_below_empty_iff [of rows lo hi threshold]
      get_hours_below_price_Table [OF assms(2,3), of rows threshold]
    by (simp only:)
qed

lemma sample_today: "local_date sample_externals 1625140800 0 = Inr ''2021-07-01''"
  by code_simp

lemma sample_tomorrow: "local_date sample_externals 1625140800 1 = Inr ''2021-07-02''"
  by code_simp

lemma sample_rows_distinct: "distinct (map from_period sample_rows)"
  by code_simp

theorem select_below_exact_witness:
  "distinct (map from_period sample_rows)
   \<and> local_date sample_externals 1625140800 0 = Inr ''2021-07-01''
   \<and> local_date sample_externals 1625140800 1 = Inr ''2021-07-02''
   \<and> select_below sample_rows ''2021-07-01 00:00:00'' ''2021-07-02 23:59:59'' 20
       = [(''2021-07-02 00:00:00'', ''2021-07-02 00:30:00''),
          (''2021-07-02 00:30:00'', ''2021-07-02 01:00:00'')]
   \<and> get_hours_below_price sample_externals (Table sample_rows) 1625140800 1625140800 20
       = Inr [(''2021-07-02 00:00'', ''2021-07-02 01:00'')]
   \<and> select_below sample_rows ''2021-07-01 00:00:00'' ''2021-07-02 23:59:59'' 0 = []
   \<and> get_hours_below_price sample_externals (Table sample_rows) 1625140800 1625140800 0
       = Inr []"
proof -
  have sel20: "select_below sample_rows ''2021-07-01 00:00:00'' ''2021-07-02 23:59:59'' 20
       = [(''2021-07-02 00:00:00'', ''2021-07-02 00:30:00''),
          (''2021-07-02 00:30:00'', ''2021-07-02 01:00:00'')]"
    by code_simp
  have sel0: "select_below sample_rows ''2021-07-01 00:00:00'' ''2021-07-02 23:59:59'' 0 = []"
    by code_simp
  have str: "continuous_hours_str [(''2021-07-02 00:00:00'', ''2021-07-02 00:30:00''),
          (''2021-07-02 00:30:00'', ''2021-07-02 01:00:00'')] = [(''2021-07-02 00:00'', ''2021-07-02 01:00'')]"
    by code_simp
  have str0: "continuous_hours_str [] = []"
    by code_simp
  note at20 = select_below_exact [OF sample_rows_distinct sample_today sample_tomorrow,
      of "''2021-07-01 00:00:00''" "''2021-07-02 23:59:59''" 20]
  note at0 = select_below_exact [OF sample_rows_distinct sample_today sample_tomorrow,
      of "''2021-07-01 00:00:00''" "''2021-07-02 23:59:59''" 0]
  have "get_hours_below_price sample_externals (Table sample_rows) 1625140800 1625140800 20
       = Inr [(''2021-07-02 00:00'', ''2021-07-02 01:00'')]"
    using at20 by (simp add: sel20 str)
  moreover have "get_hours_below_price sample_externals (Table sample_rows) 1625140800
       1625140800 0 = Inr []"
    using at0 by (simp add: sel0 str0)
  ultimately show ?thesis
    using sample_rows_distinct sample_today sample_tomorrow sel20 sel0 by simp
qed

subsection \<open>Time zones\<close>

lemma fromisoformat_winter:
  "fromisoformat ext ''2021-02-21T00:00:00+00:00'' = Inr 1613865600"
  by (simp add: fromisoformat_def iso_shape_def is_digit_def number_def digit_value_def
      days_in_month_def is_leap_def utc_seconds_def ymd2ord_def days_before_year_def
      days_before_month_def Let_def)

lemma fromisoformat_summer:
  "fromisoformat ext ''2021-07-01T12:00:00+00:00'' = Inr 1625140800"
  by (simp add: fromisoformat_def iso_shape_def is_digit_def number_def digit_value_def
      days_in_month_def is_leap_def utc_seconds_def ymd2ord_def days_before_year_def
      days_before_month_def Let_def)

lemma civil_winter: "strftime CHR '' '' (civil 1613865600) = ''2021-02-21 00:00:00''"
  by code_simp

lemma civil_summer: "strftime CHR '' '' (civil (1625140800 + 3600)) = ''2021-07-01 13:00:00''"
  by code_simp

lemma to_timezone_moves:
  assumes "timezone ext tz = Some offset"
    and "fromisoformat ext (butlast t @ ''+00:00'') = Inr utc"
    and "in_range (utc + offset utc)"
  shows "to_timezone ext t tz = Inr (strftime CHR '' '' (civil (utc + offset utc)))"
  using assms by (simp add: to_timezone_def)

text \<open>
  Claim C5. With the zone that \<open>pytz\<close> returns for Europe/London, \<open>to_timezone\<close> prints
  the civil time of the same instant in that zone: the UTC second it read plus the zone's
  offset at that second. For 2021-02-21T00:00:00Z, where the offset is 0 (winter), that is
  2021-02-21 00:00:00; for 2021-07-01T12:00:00Z, where the offset is one hour (summer), it
  is 2021-07-01 13:00:00, one hour later.
\<close>

theorem to_timezone_london:
  assumes "timezone ext ''Europe/London'' = Some offset"
  shows "(offset 1613865600 = 0 \<longrightarrow>
            to_timezone ext ''2021-02-21T00:00:00Z'' ''Europe/London''
              = Inr ''2021-02-21 00:00:00'')
         \<and> (offset 1625140800 = 3600 \<longrightarrow>
            to_timezone ext ''2021-07-01T12:00:00Z'' ''Europe/London''
              = Inr ''2021-07-01 13:00:00'')
         \<and> (\<forall>t utc. fromisoformat ext (butlast t @ ''+00:00'') = Inr utc
                \<and> in_range (utc + offset utc) \<longrightarrow>
              to_timezone ext t ''Europe/London''
                = Inr (strftime CHR '' '' (civil (utc + offset utc))))"
proof -
  have winter: "to_timezone ext ''2021-02-21T00:00:00Z'' ''Europe/London''
      = Inr ''2021-02-21 00:00:00''" if "offset 1613865600 = 0"
    using to_timezone_moves [OF assms, of "''2021-02-21T00:00:00Z''" 1613865600] that
    by (simp add: fromisoformat_winter in_range_def civil_winter)
  have summer: "to_timezone ext ''2021-07-01T12:00:00Z'' ''Europe/London''
      = Inr ''2021-07-01 13:00:00''" if "offset 1625140800 = 3600"
    using to_timezone_moves [OF assms, of "''2021-07-01T12:00:00Z''" 1625140800] that
      civil_summer
    by (simp add: fromisoformat_summer in_range_def)
  from winter summer to_timezone_moves [OF assms] show ?thesis
    by blast
qed

lemma sample_london:
  "timezone sample_externals ''Europe/London''
   = Some (\<lambda>u. if 1616893200 \<le> u \<and> u < 1635642000 then 3600 else 0)"
  by (simp add: sample_externals_def)

theorem to_timezone_london_witness:
  "timezone sample_externals ''Europe/London''
     = Some (\<lambda>u. if 1616893200 \<le> u \<and> u < 1635642000 then 3600 else 0)
   \<and> to_timezone sample_externals ''2021-02-21T00:00:00Z'' ''Europe/London''
       = Inr ''2021-02-21 00:00:00''
   \<and> to_timezone sample_externals ''2021-07-01T12:00:00Z'' ''Europe/London''
       = Inr ''2021-07-01 13:00:00''
   \<and> fromisoformat sample_externals (butlast ''2021-07-01T23:30:00Z'' @ ''+00:00'')
       = Inr 1625182200
   \<and> in_range (1625182200 + 3600)
   \<and> to_timezone sample_externals ''2021-07-01T23:30:00Z'' ''Europe/London''
       = Inr ''2021-07-02 00:30:00''"
proof -
  have parsed: "fromisoformat sample_externals (butlast ''2021-07-01T23:30:00Z'' @ ''+00:00'')
       = Inr 1625182200"
    by code_simp
  have inside: "in_range (1625182200 + 3600)"
    by (simp add: in_range_def)
  have printed: "strftime CHR '' '' (civil (1625182200 + 3600)) = ''2021-07-02 00:30:00''"
    by code_simp
  note t = to_timezone_london [OF sample_london]
  have "to_timezone sample_externals ''2021-07-01T23:30:00Z'' ''Europe/London''
       = Inr ''2021-07-02 00:30:00''"
    using t [THEN conjunct2, THEN conjunct2, rule_format,
        of "''2021-07-01T23:30:00Z''" 1625182200] parsed inside printed
    by simp
  then show ?thesis
    using t sample_london parsed inside by simp
qed

subsection \<open>Failed fetches\<close>

lemma get_price_network_error:
  "requests_get ext (price_url product_code) (api_key, '''') = Inl e \<Longrightarrow>
     get_price ext api_key product_code = Inl e"
  by (simp add: get_price_def)

lemma get_price_any_status:
  "requests_get ext (price_url product_code) (api_key, '''') = Inr resp \<Longrightarrow>
     get_price ext api_key product_code
       = (case json_body resp of None \<Rightarrow> Inl JSONDecodeError | Some j \<Rightarrow> Inr j)"
  by (simp add: get_price_def)

lemma main_get_price_error:
  assumes "config_get config ''octopus'' ''api_key'' = Inr api_key"
    and "config_get config ''octopus'' ''product_code'' = Inr product_code"
    and "get_price ext api_key product_code = Inl e"
  shows "main ext config con = (Inl e, con)"
  using assms by (simp add: main_def)

lemma main_insert_price_error:
  assumes "config_get config ''octopus'' ''api_key'' = Inr api_key"
    and "config_get config ''octopus'' ''product_code'' = Inr product_code"
    and "get_price ext api_key product_code = Inr unit_rates"
    and "insert_price ext con unit_rates = Inl e"
  shows "main ext config con = (Inl e, con)"
  using assms by (simp add: main_def)

lemma insert_price_no_results:
  "map_of items ''results'' = None \<Longrightarrow>
     insert_price ext con (JObj items)
       = Inl (if con = NoDatabase then DatabaseError else KeyError ''results'')"
  by (simp add: insert_price_def subscript_def)

text \<open>
  Claim C3, amended. With the credentials read from the configuration: when the request
  fails with a network error, \<open>get_price\<close> raises it and \<open>main\<close> ends with it before
  \<open>insert_price\<close> runs, the store as it was. \<open>get_price\<close> does not look at the status
  code: a response whose body is not JSON ends the run with the decoding error, and a
  response whose body is a JSON object is returned, whatever its status. When that object
  has no \<open>results\<close>, as the body of an error response, \<open>insert_price\<close> raises \<open>KeyError\<close>
  (a database error when there is no database) before any insert, and the store is as it
  was. Any error of \<open>insert_price\<close> leaves the store as it was.
\<close>

theorem fetch_failure_leaves_store:
  assumes "config_get config ''octopus'' ''api_key'' = Inr api_key"
    and "config_get config ''octopus'' ''product_code'' = Inr product_code"
  shows "(requests_get ext (price_url product_code) (api_key, '''') = Inl e \<longrightarrow>
            get_price ext api_key product_code = Inl e
            \<and> main ext config con = (Inl e, con))
         \<and> (requests_get ext (price_url product_code) (api_key, '''') = Inr resp
              \<and> json_body resp = None \<longrightarrow>
            get_price ext api_key product_code = Inl JSONDecodeError
            \<and> main ext config con = (Inl JSONDecodeError, con))
         \<and> (requests_get ext (price_url product_code) (api_key, '''') = Inr resp
              \<and> json_body resp = Some (JObj items) \<and> map_of items ''results'' = None \<longrightarrow>
            get_price ext api_key product_code = Inr (JObj items)
            \<and> main ext config con
                = (Inl (if con = NoDatabase then DatabaseError else KeyError ''results''), con))
         \<and> (get_price ext api_key product_code = Inr unit_rates
              \<and> insert_price ext con unit_rates = Inl e \<longrightarrow>
            main ext config con = (Inl e, con))"
proof -
  have net: "get_price ext api_key product_code = Inl e \<and> main ext config con = (Inl e, con)"
    if "requests_get ext (price_url product_code) (api_key, '''') = Inl e"
    using get_price_network_error [OF that] main_get_price_error [OF assms] by simp
  have nojson: "get_price ext api_key product_code = Inl JSONDecodeError
      \<and> main ext config con = (Inl JSONDecodeError, con)"
    if "requests_get ext (price_url product_code) (api_key, '''') = Inr resp"
      and "json_body resp = None"
    using get_price_any_status [OF that(1)] that(2) main_get_price_error [OF assms] by simp
  have nores: "get_price ext api_key product_code = Inr (JObj items)
      \<and> main ext config con
          = (Inl (if con = NoDatabase then DatabaseError else KeyError ''results''), con)"
    if "requests_get ext (price_url product_code) (api_key, '''') = Inr resp"
      and "json_body resp = Some (JObj items)" and "map_of items ''results'' = None"
  proof -
    have got: "get_price ext api_key product_code = Inr (JObj items)"
      using get_price_any_status [OF that(1)] that(2) by simp
    with main_insert_price_error [OF assms got insert_price_no_results [OF that(3)]]
    show ?thesis by simp
  qed
  have ins: "main ext config con = (Inl e, con)"
    if "get_price ext api_key product_code = Inr unit_rates"
      and "insert_price ext con unit_rates = Inl e"
    using main_insert_price_error [OF assms that] .
  from net nojson nores ins show ?thesis
    by blast
qed

lemma sample_api_key: "config_get sample_config ''octopus'' ''api_key'' = Inr ''sk_live_0000''"
  by code_simp

lemma sample_product_code:
  "config_get sample_config ''octopus'' ''product_code'' = Inr ''AGILE-18-02-21''"
  by code_simp

theorem fetch_failure_leaves_store_witness:
  "config_get sample_config ''octopus'' ''api_key'' = Inr ''sk_live_0000''
   \<and> config_get sample_config ''octopus'' ''product_code'' = Inr ''AGILE-18-02-21''
   \<and> requests_get sample_externals (price_url ''AGILE-18-02-21'') (''sk_live_0000'', '''')
       = Inl ConnectionError
   \<and> main sample_externals sample_config (Table sample_rows)
       = (Inl ConnectionError, Table sample_rows)
   \<and> requests_get sample_bad_gateway (price_url ''AGILE-18-02-21'') (''sk_live_0000'', '''')
       = Inr \<lparr>status_code = 502, json_body = None\<rparr>
   \<and> main sample_bad_gateway sample_config (Table sample_rows)
       = (Inl JSONDecodeError, Table sample_rows)
   \<and> requests_get sample_unauthorized (price_url ''AGILE-18-02-21'') (''sk_live_0000'', '''')
       = Inr \<lparr>status_code = 401,
              json_body = Some (JObj [(''detail'', JStr ''Invalid API key.'')])\<rparr>
   \<and> main sample_unauthorized sample_config (Table sample_rows)
       = (Inl (KeyError ''results''), Table sample_rows)"
proof -
  have r1: "requests_get sample_externals (price_url ''AGILE-18-02-21'') (''sk_live_0000'', '''')
       = Inl ConnectionError"
    by (simp add: sample_externals_def)
  have r2: "requests_get sample_bad_gateway (price_url ''AGILE-18-02-21'')
       (''sk_live_0000'', '''') = Inr \<lparr>status_code = 502, json_body = None\<rparr>"
    by (simp add: sample_bad_gateway_def)
  have r3: "requests_get sample_unauthorized (price_url ''AGILE-18-02-21'')
       (''sk_live_0000'', '''')
       = Inr \<lparr>status_code = 401,
              json_body = Some (JObj [(''detail'', JStr ''Invalid API key.'')])\<rparr>"
    by (simp add: sample_unauthorized_def)
  note t = fetch_failure_leaves_store [OF sample_api_key sample_product_code]
  have "main sample_externals sample_config (Table sample_rows)
       = (Inl ConnectionError, Table sample_rows)"
    using t [where ext = sample_externals and e = ConnectionError
        and con = "Table sample_rows"] r1
    by simp
  moreover have "main sample_bad_gateway sample_config (Table sample_rows)
       = (Inl JSONDecodeError, Table sample_rows)"
    using t [where ext = sample_bad_gateway
        and resp = "\<lparr>status_code = 502, json_body = None\<rparr>"
        and con = "Table sample_rows"] r2
    by simp
  moreover have "main sample_unauthorized sample_config (Table sample_rows)
       = (Inl (KeyError ''results''), Table sample_rows)"
    using t [where ext = sample_unauthorized
        and resp = "\<lparr>status_code = 401,
          json_body = Some (JObj [(''detail'', JStr ''Invalid API key.'')])\<rparr>"
        and items = "[(''detail'', JStr ''Invalid API key.'')]"
        and con = "Table sample_rows"] r3
    by simp
  ultimately show ?thesis
    using sample_api_key sample_product_code r1 r2 r3 by simp
qed

text \<open>
  Claim C3 as stated fails: for a response with status 401 and a JSON body, the fetch
  returns the body and raises nothing; the run ends in \<open>insert_price\<close>, with \<open>KeyError\<close>.
\<close>

theorem get_price_ignores_status_counterexample:
  "status_code \<lparr>status_code = 401,
                 json_body = Some (JObj [(''detail'', JStr ''Invalid API key.'')])\<rparr> = 401
   \<and> requests_get sample_unauthorized (price_url ''AGILE-18-02-21'') (''sk_live_0000'', '''')
       = Inr \<lparr>status_code = 401,
              json_body = Some (JObj [(''detail'', JStr ''Invalid API key.'')])\<rparr>
   \<and> get_price sample_unauthorized ''sk_live_0000'' ''AGILE-18-02-21''
       = Inr (JObj [(''detail'', JStr ''Invalid API key.'')])
   \<and> main sample_unauthorized sample_config (Table [])
       = (Inl (KeyError ''results''), Table [])"
  by (simp add: sample_unauthorized_def get_price_def main_def config_get_def sample_config_def
      insert_price_def subscript_def)

end
